theory Spec2Isabelle
  imports
    Main
    "HOL-Library.AList"
    "HOL-Library.Sublist"
    "HOL-Library.Char_ord"
    "HOL-Library.List_Lexorder"
begin

section \<open>The index generator of the workflow repository (generate-index.py)\<close>

text \<open>
  The script scans a directory of workflow files, validates the \<open>_meta\<close> envelope of
  each, rewrites every valid file with its three runtime flags reset, and writes a sorted
  catalog \<open>index.json\<close>. The theory embeds each function of the script as a HOL function
  and states the properties of the specification about them.

  Python strings are modelled as \<^typ>\<open>string\<close>, the UTF-8 bytes of the text. The script
  only searches for and removes ASCII substrings and compares strings, and on UTF-8 both
  agree with Python's operations on code points (the byte-wise lexicographic order of
  UTF-8 is the order of the code points). A Python string can hold a lone surrogate
  (\<open>json.load\<close> reads the escape \<open>\ud800\<close> as one), which strict UTF-8 refuses to
  encode; in the model it has the three bytes that the UTF-8 scheme gives a code point of
  its range, \<open>ED A0 80\<close> to \<open>ED BF BF\<close>.

  Three things come from the environment of the script and are arguments of the model:
  the file system at the scanned path, the text \<open>now\<close> of the clock, and the function
  \<open>path_str\<close> that renders the path of a file of a directory, which is pathlib's
  \<open>str(Path(directory) / name)\<close>. Standard output is taken to encode as strict UTF-8,
  as the files that the script opens do.
\<close>

subsection \<open>JSON values and Python exceptions\<close>

text \<open>
  What \<open>json.load\<close> returns. A JSON object becomes a Python dict, which keeps its keys
  in insertion order: an association list. A number with a fraction or an exponent is
  loaded as a float; the script never computes with one, so the model keeps it as a
  mantissa and a decimal exponent.
\<close>

datatype json =
    JNull
  | JBool bool
  | JInt int
  | JFloat int int
  | JStr string
  | JArr "json list"
  | JObj "(string \<times> json) list"

text \<open>
  What the JSON parser says of a text that it refuses: the text of its message, or, for
  the incomplete text that a failed dump of a value left in a file, the message about
  that text (whose wording the model does not spell out).
\<close>

datatype parse_error = Message string | IncompleteDump json

text \<open>
  The exceptions that the script can meet. \<open>JSONDecodeError\<close> carries what the parser
  says and \<open>OtherException\<close> the text of any other exception that reading a file raises
  (a decoding error, a directory named like a file, ...).
\<close>

datatype exn =
    TypeError
  | AttributeError
  | KeyError string
  | JSONDecodeError parse_error
  | UnicodeEncodeError
  | FileNotFoundError
  | PermissionError
  | OtherException string

subsection \<open>Encoding as UTF-8\<close>

text \<open>
  A string can be encoded as strict UTF-8 when it holds no lone surrogate, that is, no
  byte \<open>ED\<close> followed by a byte from \<open>A0\<close> on.
\<close>

fun has_surrogate :: "string \<Rightarrow> bool" where
  "has_surrogate (a # b # cs) =
     (if a = CHR 0xED \<and> (0xA0 :: nat) \<le> of_char b then True else has_surrogate (b # cs))"
| "has_surrogate cs = False"

definition encodable :: "string \<Rightarrow> bool" where
  "encodable s = (\<not> has_surrogate s)"

text \<open>
  \<open>json.dump(v, f, ensure_ascii=False)\<close> writes every string and every key of the value as
  it is: the text can be encoded when all of them can.
\<close>

fun dumpable :: "json \<Rightarrow> bool" where
  "dumpable (JStr s) = encodable s"
| "dumpable (JArr xs) = list_all dumpable xs"
| "dumpable (JObj kvs) = (list_all encodable (map fst kvs) \<and> list_all dumpable (map snd kvs))"
| "dumpable v = True"

text \<open>
  \<open>str(v)\<close>, as an f-string interpolates a value: a string is taken as it is; the text of
  any other value is made of digits, keywords and \<open>repr\<close>s, and \<open>repr\<close> escapes a lone
  surrogate.
\<close>

definition printable :: "json \<Rightarrow> bool" where
  "printable v = (case v of JStr s \<Rightarrow> encodable s | _ \<Rightarrow> True)"

subsection \<open>normalize_id\<close>

text \<open>
  \<open>str.replace(old, new)\<close> replaces every non-overlapping occurrence of \<open>old\<close>, scanning
  from the left. \<open>replace_from\<close> is the scan for a non-empty \<open>old\<close>; for the empty
  pattern Python puts \<open>new\<close> before every character and at the end.
\<close>

fun replace_from :: "string \<Rightarrow> string \<Rightarrow> string \<Rightarrow> string" where
  "replace_from old new [] = []"
| "replace_from old new (c # cs) =
     (if old \<noteq> [] \<and> prefix old (c # cs)
      then new @ replace_from old new (drop (length old - 1) cs)
      else c # replace_from old new cs)"

definition py_replace :: "string \<Rightarrow> string \<Rightarrow> string \<Rightarrow> string" where
  "py_replace s old new =
     (if old = [] then new @ concat (map (\<lambda>c. c # new) s) else replace_from old new s)"

definition endswith :: "string \<Rightarrow> string \<Rightarrow> bool" where
  "endswith s suf = suffix suf s"

text \<open>
  \<^verbatim>\<open>return filename.replace('.json', '') if filename.endswith('.json') else filename\<close>
\<close>

definition normalize_id :: "string \<Rightarrow> string" where
  "normalize_id filename =
     (if endswith filename ''.json'' then py_replace filename ''.json'' '''' else filename)"

text \<open>
  The specification's reading of the same function: the filename with its trailing
  \<open>.json\<close> extension removed, and nothing else.
\<close>

definition strip_json_extension :: "string \<Rightarrow> string" where
  "strip_json_extension filename =
     (if endswith filename ''.json'' then take (length filename - 5) filename else filename)"

subsection \<open>Python's operators on JSON values\<close>

text \<open>
  \<open>k in v\<close> for a string \<open>k\<close>: a key of a dict, an element of a list, a substring of a
  string; a number, a boolean or \<open>None\<close> is not iterable.
\<close>

definition py_contains :: "string \<Rightarrow> json \<Rightarrow> exn + bool" where
  "py_contains k v =
     (case v of
        JObj kvs \<Rightarrow> Inr (k \<in> set (map fst kvs))
      | JArr xs \<Rightarrow> Inr (JStr k \<in> set xs)
      | JStr s \<Rightarrow> Inr (sublist k s)
      | _ \<Rightarrow> Inl TypeError)"

text \<open>\<open>v[k]\<close> for a string \<open>k\<close>: only a dict can be indexed by a string.\<close>

definition py_getitem :: "json \<Rightarrow> string \<Rightarrow> exn + json" where
  "py_getitem v k =
     (case v of
        JObj kvs \<Rightarrow> (case map_of kvs k of Some x \<Rightarrow> Inr x | None \<Rightarrow> Inl (KeyError k))
      | _ \<Rightarrow> Inl TypeError)"

text \<open>\<open>d.get(k, dflt)\<close> on a dict; other values have no method \<open>get\<close>.\<close>

definition dict_get :: "(string \<times> json) list \<Rightarrow> string \<Rightarrow> json \<Rightarrow> json" where
  "dict_get kvs k dflt = (case map_of kvs k of Some v \<Rightarrow> v | None \<Rightarrow> dflt)"

definition py_get :: "json \<Rightarrow> string \<Rightarrow> json \<Rightarrow> exn + json" where
  "py_get v k dflt = (case v of JObj kvs \<Rightarrow> Inr (dict_get kvs k dflt) | _ \<Rightarrow> Inl AttributeError)"

subsection \<open>validate_workflow\<close>

text \<open>
  The three messages of the validator, each with the values its format string
  interpolates: the \<open>_meta\<close> section is missing; \<open>_meta\<close> lacks required fields (the
  names, joined by a comma and a space in the text); the identifier of \<open>_meta\<close> differs
  from the one expected from the filename (the expected and the declared identifier).
\<close>

datatype message =
    MissingMeta
  | MissingFields "string list"
  | IdMismatch string json

definition required_meta_fields :: "string list" where
  "required_meta_fields =
     [''id'', ''name'', ''description'', ''author'', ''version'', ''vFlowLevel'']"

text \<open>\<^verbatim>\<open>[field for field in fields if field not in meta]\<close>\<close>

fun missing_from :: "json \<Rightarrow> string list \<Rightarrow> exn + string list" where
  "missing_from meta [] = Inr []"
| "missing_from meta (field # fields) =
     (case py_contains field meta of
        Inl e \<Rightarrow> Inl e
      | Inr present \<Rightarrow>
          (case missing_from meta fields of
             Inl e \<Rightarrow> Inl e
           | Inr rest \<Rightarrow> Inr (if \<not> present then field # rest else rest)))"

text \<open>
  The result is the triple \<open>(is_valid, error_message, cleaned_data)\<close> of the script, or
  the exception that an operator raised on a value of the wrong type.
\<close>

definition validate_workflow :: "json \<Rightarrow> string \<Rightarrow> exn + (bool \<times> message option \<times> json option)" where
  "validate_workflow data filename =
     (case py_contains ''_meta'' data of
        Inl e \<Rightarrow> Inl e
      | Inr has_meta \<Rightarrow>
          if \<not> has_meta then Inr (False, Some MissingMeta, None)
          else
            (case py_getitem data ''_meta'' of
               Inl e \<Rightarrow> Inl e
             | Inr meta \<Rightarrow>
                 (case missing_from meta required_meta_fields of
                    Inl e \<Rightarrow> Inl e
                  | Inr missing_fields \<Rightarrow>
                      if missing_fields \<noteq> []
                      then Inr (False, Some (MissingFields missing_fields), None)
                      else
                        (let expected_id = normalize_id filename in
                         case py_getitem meta ''id'' of
                           Inl e \<Rightarrow> Inl e
                         | Inr meta_id \<Rightarrow>
                             if meta_id \<noteq> JStr expected_id
                             then Inr (False, Some (IdMismatch expected_id meta_id), None)
                             else Inr (True, None, Some data)))))"

subsection \<open>clean_workflow_for_repo\<close>

text \<open>
  \<open>data.copy()\<close> followed by three assignments. An assignment to a key of a dict keeps
  the key's position when the key is there and appends it otherwise, which is
  \<^const>\<open>AList.update\<close>. A list has \<open>copy\<close> but no string index; the other values have no
  \<open>copy\<close>.
\<close>

definition clean_workflow_for_repo :: "json \<Rightarrow> exn + json" where
  "clean_workflow_for_repo data =
     (case data of
        JObj kvs \<Rightarrow>
          Inr (JObj (AList.update ''wasEnabledBeforePermissionsLost'' (JBool False)
                    (AList.update ''isFavorite'' (JBool False)
                    (AList.update ''isEnabled'' (JBool False) kvs))))
      | JArr xs \<Rightarrow> Inl TypeError
      | _ \<Rightarrow> Inl AttributeError)"

subsection \<open>The directory\<close>

text \<open>
  A file is modelled by what \<open>json.load\<close> makes of it (a value, a \<open>JSONDecodeError\<close>
  with what the parser says, or another exception with its message) and by whether it
  can be opened for writing. A directory lists its files by name, in the order in which
  the file system enumerates them. The file system at the scanned path is a directory or
  nothing.
\<close>

datatype file_content = Loaded json | Malformed parse_error | Unreadable string

record disk_file =
  contents :: file_content
  writable :: bool

type_synonym directory = "(string \<times> disk_file) list"

text \<open>\<^verbatim>\<open>with open(filepath, 'r', encoding='utf-8') as f: data = json.load(f)\<close>\<close>

definition load_json :: "directory \<Rightarrow> string \<Rightarrow> exn + json" where
  "load_json d name =
     (case map_of d name of
        None \<Rightarrow> Inl FileNotFoundError
      | Some f \<Rightarrow>
          (case contents f of
             Loaded v \<Rightarrow> Inr v
           | Malformed m \<Rightarrow> Inl (JSONDecodeError m)
           | Unreadable m \<Rightarrow> Inl (OtherException m)))"

text \<open>
  \<^verbatim>\<open>with open(filepath, 'w', encoding='utf-8') as f: json.dump(v, f, ensure_ascii=False, indent=2)\<close>
  The result is the exception that the statement raises, if any, and the directory that
  it leaves. A file that cannot be opened for writing raises and keeps its content.
  Opening truncates the file, or creates it at the end of the listing; the dump then
  writes the text piece by piece and raises \<open>UnicodeEncodeError\<close> at the first string
  that cannot be encoded, which leaves an incomplete text in the file.
\<close>

definition written :: "json \<Rightarrow> file_content" where
  "written v = (if dumpable v then Loaded v else Malformed (IncompleteDump v))"

definition dump_json :: "directory \<Rightarrow> string \<Rightarrow> json \<Rightarrow> exn option \<times> directory" where
  "dump_json d name v =
     (case map_of d name of
        None \<Rightarrow>
          (if dumpable v then None else Some UnicodeEncodeError,
           d @ [(name, \<lparr>contents = written v, writable = True\<rparr>)])
      | Some f \<Rightarrow>
          if \<not> writable f then (Some PermissionError, d)
          else (if dumpable v then None else Some UnicodeEncodeError,
                AList.update name (f\<lparr>contents := written v\<rparr>) d))"

text \<open>\<open>dir_path.glob('*.json')\<close>: the names that end in \<open>.json\<close>, in enumeration order.\<close>

definition glob_json :: "directory \<Rightarrow> string list" where
  "glob_json d = filter (\<lambda>name. endswith name ''.json'') (map fst d)"

subsection \<open>scan_directory\<close>

text \<open>
  An entry of the list \<open>errors\<close>: the name of the file and what follows it in the line,
  the validator's message or the text of the exception (with the prefix of the first
  \<open>except\<close> clause for a \<open>JSONDecodeError\<close>).
\<close>

datatype reason =
    Invalid "message option"
  | JSONParseError parse_error
  | Exception exn

record scan_state =
  items :: "json list"
  errors :: "(string \<times> reason) list"
  skipped_files :: "string list"
  dir :: directory

definition skip :: "string \<Rightarrow> reason \<Rightarrow> scan_state \<Rightarrow> scan_state" where
  "skip name r st =
     st\<lparr>errors := errors st @ [(name, r)], skipped_files := skipped_files st @ [name]\<rparr>"

text \<open>The two placeholder texts of the script, as UTF-8 (three and two CJK characters).\<close>

definition unnamed :: string where
  "unnamed = [CHR 0xE6, CHR 0x9C, CHR 0xAA, CHR 0xE5, CHR 0x91, CHR 0xBD, CHR 0xE5, CHR 0x90, CHR 0x8D]"

definition unknown :: string where
  "unknown = [CHR 0xE6, CHR 0x9C, CHR 0xAA, CHR 0xE7, CHR 0x9F, CHR 0xA5]"

definition download_base :: string where
  "download_base = ''https://raw.githubusercontent.com/ChaoMixian/vFlow-Repos/main/workflows/''"

text \<open>
  The dict literal \<open>item\<close>; every \<open>meta.get\<close> needs \<open>meta\<close> to be a dict. The argument
  \<open>path_of\<close> renders the path of a file of the scanned directory: \<open>path_of name\<close> is
  \<open>str(filepath)\<close>.
\<close>

definition build_item :: "(string \<Rightarrow> string) \<Rightarrow> string \<Rightarrow> json \<Rightarrow> exn + json" where
  "build_item path_of name meta =
     (case meta of
        JObj m \<Rightarrow>
          Inr (JObj
            [(''id'', dict_get m ''id'' (JStr (normalize_id name))),
             (''name'', dict_get m ''name'' (JStr unnamed)),
             (''description'', dict_get m ''description'' (JStr [])),
             (''author'', dict_get m ''author'' (JStr unknown)),
             (''version'', dict_get m ''version'' (JStr ''1.0.0'')),
             (''vFlowLevel'', dict_get m ''vFlowLevel'' (JInt 1)),
             (''homepage'', dict_get m ''homepage'' (JStr [])),
             (''tags'', dict_get m ''tags'' (JArr [])),
             (''updated_at'', dict_get m ''updated_at'' (JStr [])),
             (''filename'', JStr name),
             (''download_url'', JStr (download_base @ name)),
             (''local_path'', JStr (path_of name))])
      | _ \<Rightarrow> Inl AttributeError)"

text \<open>
  The two \<open>except\<close> clauses of the loop: the first takes a \<open>JSONDecodeError\<close>, the
  second every other exception.
\<close>

definition caught :: "exn \<Rightarrow> reason" where
  "caught e = (case e of JSONDecodeError m \<Rightarrow> JSONParseError m | _ \<Rightarrow> Exception e)"

text \<open>
  \<open>item[k]\<close> for a key of the dict literal above, which has every key that the script
  reads.
\<close>

definition item_field :: "json \<Rightarrow> string \<Rightarrow> json" where
  "item_field item k =
     (case item of
        JObj kvs \<Rightarrow> (case map_of kvs k of Some v \<Rightarrow> v | None \<Rightarrow> JNull)
      | _ \<Rightarrow> JNull)"

text \<open>
  The line that the loop prints for a file it has rewritten interpolates the name of the
  file and the name, the version and the level of the item; \<open>print\<close> raises
  \<open>UnicodeEncodeError\<close> when the line cannot be encoded.
\<close>

definition success_line_encodable :: "string \<Rightarrow> json \<Rightarrow> bool" where
  "success_line_encodable name item =
     (encodable name \<and> printable (item_field item ''name'') \<and>
      printable (item_field item ''version'') \<and> printable (item_field item ''vFlowLevel''))"

text \<open>
  The body of the loop for one file that is not \<open>index.json\<close>. The item is appended
  before the file is rewritten, so an exception of the rewrite, or of the \<open>print\<close> after
  it, finds the item in \<open>items\<close>.
\<close>

definition process_file :: "(string \<Rightarrow> string) \<Rightarrow> string \<Rightarrow> scan_state \<Rightarrow> scan_state" where
  "process_file path_of name st =
     (case load_json (dir st) name of
        Inl e \<Rightarrow> skip name (caught e) st
      | Inr data \<Rightarrow>
          (case validate_workflow data name of
             Inl e \<Rightarrow> skip name (caught e) st
           | Inr (is_valid, error_msg, _) \<Rightarrow>
               if \<not> is_valid then skip name (Invalid error_msg) st
               else
                 (case py_get data ''_meta'' (JObj []) of
                    Inl e \<Rightarrow> skip name (caught e) st
                  | Inr meta \<Rightarrow>
                      (case clean_workflow_for_repo data of
                         Inl e \<Rightarrow> skip name (caught e) st
                       | Inr cleaned_workflow \<Rightarrow>
                           (case build_item path_of name meta of
                              Inl e \<Rightarrow> skip name (caught e) st
                            | Inr item \<Rightarrow>
                                (let st1 = st\<lparr>items := items st @ [item]\<rparr> in
                                 case dump_json (dir st1) name cleaned_workflow of
                                   (Some e, d) \<Rightarrow> skip name (caught e) (st1\<lparr>dir := d\<rparr>)
                                 | (None, d) \<Rightarrow>
                                     if success_line_encodable name item then st1\<lparr>dir := d\<rparr>
                                     else skip name (caught UnicodeEncodeError)
                                            (st1\<lparr>dir := d\<rparr>)))))))"

fun scan_loop :: "(string \<Rightarrow> string) \<Rightarrow> string list \<Rightarrow> scan_state \<Rightarrow> scan_state" where
  "scan_loop path_of [] st = st"
| "scan_loop path_of (name # names) st =
     scan_loop path_of names
       (if name = ''index.json'' then st else process_file path_of name st)"

text \<open>
  The result is the triple \<open>(items, errors, skipped_files)\<close> and the directory as the
  scan leaves it, or the exception of the \<open>print\<close> that reports a missing directory,
  whose line interpolates the path.
\<close>

definition scan_directory ::
  "(string \<Rightarrow> string \<Rightarrow> string) \<Rightarrow> string \<Rightarrow> directory option \<Rightarrow>
     exn + (json list \<times> (string \<times> reason) list \<times> string list) \<times> directory option" where
  "scan_directory path_str directory_path fs =
     (case fs of
        None \<Rightarrow>
          if encodable directory_path then Inr (([], [], []), None) else Inl UnicodeEncodeError
      | Some d \<Rightarrow>
          (let st = scan_loop (path_str directory_path) (glob_json d)
                      \<lparr>items = [], errors = [], skipped_files = [], dir = d\<rparr>
           in Inr ((items st, errors st, skipped_files st), Some (dir st))))"

subsection \<open>generate_index\<close>

text \<open>
  \<^verbatim>\<open>items.sort(key=lambda x: x['id'])\<close>. Every item that the scan produces has a string
  as its \<open>id\<close> (lemma \<open>scan_directory_lists\<close> below), and Python orders strings
  lexicographically by code point; its sort is stable. The model raises \<open>TypeError\<close>
  for keys that are not all strings.
\<close>

definition item_key :: "json \<Rightarrow> string option" where
  "item_key x =
     (case x of
        JObj kvs \<Rightarrow> (case map_of kvs ''id'' of Some (JStr s) \<Rightarrow> Some s | _ \<Rightarrow> None)
      | _ \<Rightarrow> None)"

definition sort_by_id :: "json list \<Rightarrow> exn + json list" where
  "sort_by_id xs =
     (if list_all (\<lambda>x. item_key x \<noteq> None) xs
      then Inr (sort_key (\<lambda>x. the (item_key x)) xs)
      else Inl TypeError)"

text \<open>The dict literal \<open>index\<close>; \<open>now\<close> is the text of \<open>datetime.now().isoformat()\<close>.\<close>

definition build_index :: "string \<Rightarrow> json list \<Rightarrow> json" where
  "build_index now xs =
     JObj [(''version'', JStr ''1.0''),
           (''last_updated'', JStr now),
           (''total_count'', JInt (int (length xs))),
           (''workflows'', JArr xs)]"

text \<open>Opening a file for writing in a directory that does not exist raises.\<close>

definition write_file ::
  "directory option \<Rightarrow> string \<Rightarrow> json \<Rightarrow> exn option \<times> directory option" where
  "write_file fs name v =
     (case fs of
        None \<Rightarrow> (Some FileNotFoundError, None)
      | Some d \<Rightarrow> (case dump_json d name v of (e, d') \<Rightarrow> (e, Some d')))"

text \<open>
  The text of an entry of \<open>errors\<close>, which \<open>generate_index\<close> prints: the name of the file
  as it is, then the validator's message (which interpolates the missing fields, or the
  expected identifier and the declared one) or \<open>str(e)\<close> of the exception. The messages of
  the exceptions that Python raises itself quote names by their \<open>repr\<close>.
\<close>

definition message_encodable :: "message \<Rightarrow> bool" where
  "message_encodable m =
     (case m of
        MissingMeta \<Rightarrow> True
      | MissingFields flds \<Rightarrow> list_all encodable flds
      | IdMismatch expected_id meta_id \<Rightarrow> encodable expected_id \<and> printable meta_id)"

definition parse_error_encodable :: "parse_error \<Rightarrow> bool" where
  "parse_error_encodable pe = (case pe of Message m \<Rightarrow> encodable m | IncompleteDump v \<Rightarrow> True)"

definition reason_encodable :: "reason \<Rightarrow> bool" where
  "reason_encodable r =
     (case r of
        Invalid None \<Rightarrow> True
      | Invalid (Some m) \<Rightarrow> message_encodable m
      | JSONParseError pe \<Rightarrow> parse_error_encodable pe
      | Exception (JSONDecodeError pe) \<Rightarrow> parse_error_encodable pe
      | Exception (OtherException m) \<Rightarrow> encodable m
      | Exception e \<Rightarrow> True)"

definition error_line_encodable :: "string \<times> reason \<Rightarrow> bool" where
  "error_line_encodable err = (encodable (fst err) \<and> reason_encodable (snd err))"

text \<open>
  The result is the file system as the run leaves it, and either the exception that ends
  the run or the exit status that the function asks for (\<open>sys.exit(1)\<close>, or 0 when it
  returns). The statements that can raise, in their order: the \<open>print\<close> of the
  directory, the scan, the \<open>print\<close> of each collected error, the sort, the dump of the
  index, and the \<open>print\<close>s of the path of the index and of its timestamp.
\<close>

definition generate_index ::
  "(string \<Rightarrow> string \<Rightarrow> string) \<Rightarrow> string \<Rightarrow> string \<Rightarrow> string \<Rightarrow> directory option \<Rightarrow>
     directory option \<times> (exn + int)" where
  "generate_index path_str directory output_file now fs =
     (if \<not> encodable directory then (fs, Inl UnicodeEncodeError)
      else
        (case scan_directory path_str directory fs of
           Inl e \<Rightarrow> (fs, Inl e)
         | Inr ((items0, errors0, skipped0), fs1) \<Rightarrow>
             if \<not> list_all error_line_encodable errors0 then (fs1, Inl UnicodeEncodeError)
             else
               (case sort_by_id items0 of
                  Inl e \<Rightarrow> (fs1, Inl e)
                | Inr sorted_items \<Rightarrow>
                    (case write_file fs1 output_file (build_index now sorted_items) of
                       (Some e, fs2) \<Rightarrow> (fs2, Inl e)
                     | (None, fs2) \<Rightarrow>
                         if \<not> (encodable (path_str directory output_file) \<and> encodable now)
                         then (fs2, Inl UnicodeEncodeError)
                         else (fs2, Inr (if errors0 \<noteq> [] then 1 else 0))))))"

text \<open>
  \<open>main\<close> takes the directory from the first command-line argument. An exception that
  nothing catches ends the process with a traceback and status 1.
\<close>

definition main ::
  "(string \<Rightarrow> string \<Rightarrow> string) \<Rightarrow> string list \<Rightarrow> string \<Rightarrow> directory option \<Rightarrow>
     directory option \<times> (exn + int)" where
  "main path_str argv now fs =
     generate_index path_str (if length argv > 1 then argv ! 1 else ''workflows'')
       ''index.json'' now fs"

definition exit_status :: "directory option \<times> (exn + int) \<Rightarrow> int" where
  "exit_status r = (case snd r of Inl e \<Rightarrow> 1 | Inr status \<Rightarrow> status)"

text \<open>The catalog that a directory holds, if its \<open>index.json\<close> is one.\<close>

definition catalog :: "directory option \<Rightarrow> json option" where
  "catalog fs =
     (case fs of
        None \<Rightarrow> None
      | Some d \<Rightarrow>
          (case map_of d ''index.json'' of
             Some f \<Rightarrow> (case contents f of Loaded v \<Rightarrow> Some v | _ \<Rightarrow> None)
           | None \<Rightarrow> None))"

subsection \<open>Notions of the statements\<close>

text \<open>The three runtime flags, and the dict that the three assignments leave.\<close>

definition runtime_flags :: "string list" where
  "runtime_flags = [''isEnabled'', ''isFavorite'', ''wasEnabledBeforePermissionsLost'']"

definition clean_fields :: "(string \<times> json) list \<Rightarrow> (string \<times> json) list" where
  "clean_fields kvs =
     AList.update ''wasEnabledBeforePermissionsLost'' (JBool False)
       (AList.update ''isFavorite'' (JBool False)
         (AList.update ''isEnabled'' (JBool False) kvs))"

text \<open>The first two components of the validator's result: the verdict and the message.\<close>

definition verdict ::
  "exn + (bool \<times> message option \<times> json option) \<Rightarrow> exn + (bool \<times> message option)" where
  "verdict r =
     (case r of Inl e \<Rightarrow> Inl e | Inr (is_valid, error_msg, _) \<Rightarrow> Inr (is_valid, error_msg))"

text \<open>The index file is absent or can be opened for writing.\<close>

definition index_writable :: "directory \<Rightarrow> bool" where
  "index_writable d = (case map_of d ''index.json'' of None \<Rightarrow> True | Some f \<Rightarrow> writable f)"

text \<open>
  The identifiers of the entries of the catalog that a directory holds, in their order;
  the empty list if it holds no catalog.
\<close>

definition catalog_ids :: "directory option \<Rightarrow> string option list" where
  "catalog_ids fs =
     (case catalog fs of
        Some (JObj index) \<Rightarrow>
          (case map_of index ''workflows'' of Some (JArr xs) \<Rightarrow> map item_key xs | _ \<Rightarrow> [])
      | _ \<Rightarrow> [])"




text \<open>
  The state that the body of the loop leaves for a file that the validator accepts: the
  file \<open>f\<close> holds the dict \<open>kvs\<close> and \<open>item\<close> is its entry (lemma \<open>process_file_valid\<close>).
\<close>

definition accept ::
  "string \<Rightarrow> disk_file \<Rightarrow> (string \<times> json) list \<Rightarrow> json \<Rightarrow> scan_state \<Rightarrow> scan_state" where
  "accept name f kvs item st =
     (if \<not> writable f
      then skip name (Exception PermissionError) (st\<lparr>items := items st @ [item]\<rparr>)
      else if dumpable (JObj (clean_fields kvs)) \<and> success_line_encodable name item
      then st\<lparr>items := items st @ [item],
              dir := AList.update name (f\<lparr>contents := written (JObj (clean_fields kvs))\<rparr>)
                       (dir st)\<rparr>
      else skip name (Exception UnicodeEncodeError)
             (st\<lparr>items := items st @ [item],
                 dir := AList.update name (f\<lparr>contents := written (JObj (clean_fields kvs))\<rparr>)
                          (dir st)\<rparr>))"

text \<open>The items that a scan returns; none if it raises.\<close>

definition scan_items ::
  "(string \<Rightarrow> string \<Rightarrow> string) \<Rightarrow> string \<Rightarrow> directory option \<Rightarrow> json list" where
  "scan_items path_str directory_path fs =
     (case scan_directory path_str directory_path fs of
        Inl e \<Rightarrow> []
      | Inr ((its, errs, skipped), fs1) \<Rightarrow> its)"


subsection \<open>Example documents\<close>

text \<open>
  A workflow document with the identifier \<open>i\<close>, and a directory that holds two valid
  workflows, a file that is not JSON, a file with malformed JSON and a document without
  \<open>_meta\<close>.
\<close>

definition example_meta :: "string \<Rightarrow> json" where
  "example_meta i =
     JObj [(''id'', JStr i), (''name'', JStr ''Demo''), (''description'', JStr ''A workflow''),
           (''author'', JStr ''someone''), (''version'', JStr ''1.0.0''), (''vFlowLevel'', JInt 1)]"

definition example_doc :: "string \<Rightarrow> json" where
  "example_doc i =
     JObj [(''_meta'', example_meta i), (''isEnabled'', JBool True), (''steps'', JArr [])]"

definition example_dir :: directory where
  "example_dir =
     [(''b.json'', \<lparr>contents = Loaded (example_doc ''b''), writable = True\<rparr>),
      (''notes.txt'', \<lparr>contents = Unreadable ''not JSON'', writable = True\<rparr>),
      (''a.json'', \<lparr>contents = Loaded (example_doc ''a''), writable = True\<rparr>),
      (''broken.json'', \<lparr>contents = Malformed (Message ''Expecting value''), writable = True\<rparr>),
      (''nometa.json'', \<lparr>contents = Loaded (JObj [(''steps'', JArr [])]), writable = True\<rparr>)]"

text \<open>
  The directory of the examples is \<open>workflows\<close>, a path in normal form, for which pathlib
  renders the path of a file by joining the two with the separator.
\<close>

definition example_path_str :: "string \<Rightarrow> string \<Rightarrow> string" where
  "example_path_str directory name = directory @ ''/'' @ name"





section \<open>Properties\<close>

subsection \<open>normalize_id\<close>

lemma normalize_id_other: "\<not> endswith filename ''.json'' \<Longrightarrow> normalize_id filename = filename"
  by (simp add: normalize_id_def)

text \<open>
  When \<open>.json\<close> occurs in the filename only as its extension, the identifier is the
  filename without the extension.
\<close>

lemma prefix_json_append:
  "prefix ''.json'' (xs @ ''.json'') \<Longrightarrow> xs = [] \<or> prefix ''.json'' xs"
  by (auto simp: prefix_append append_eq_Cons_conv Cons_eq_append_conv)

lemma replace_from_no_match:
  "\<not> prefix old (c # s) \<Longrightarrow> replace_from old new (c # s) = c # replace_from old new s"
  by simp

lemma replace_from_single:
  "\<not> sublist ''.json'' stem \<Longrightarrow> replace_from ''.json'' [] (stem @ ''.json'') = stem"
proof (induction stem)
  case Nil
  show ?case by simp
next
  case (Cons c cs)
  from Cons.prems have 1: "\<not> prefix ''.json'' (c # cs)" and 2: "\<not> sublist ''.json'' cs"
    by (simp_all add: sublist_Cons_right)
  from 1 have "\<not> prefix ''.json'' (c # (cs @ ''.json''))"
    using prefix_json_append [of "c # cs"] by (metis append_Cons list.distinct(1))
  from replace_from_no_match [OF this, of "[]"] Cons.IH [OF 2] show ?case
    by (simp only: append_Cons)
qed

lemma endswith_append: "endswith (stem @ suf) suf"
  unfolding endswith_def suffix_def by blast

lemma normalize_id_single:
  "\<not> sublist ''.json'' stem \<Longrightarrow> normalize_id (stem @ ''.json'') = stem"
  by (simp add: normalize_id_def endswith_append py_replace_def replace_from_single)

lemma strip_json_extension_append: "strip_json_extension (stem @ ''.json'') = stem"
  by (simp add: strip_json_extension_def endswith_append)

text \<open>
  Claim C2. The expected identifier of a filename ending in \<open>.json\<close> should be the
  filename without that trailing extension and with nothing else removed. The script
  removes every occurrence of \<open>.json\<close>: for the file \<open>a.json.json\<close> it computes the
  identifier \<open>a\<close>, where the filename without its extension is \<open>a.json\<close>.
\<close>

theorem C2_normalize_id_removes_every_occurrence:
  "endswith ''a.json.json'' ''.json'' \<and>
   normalize_id ''a.json.json'' = ''a'' \<and>
   strip_json_extension ''a.json.json'' = ''a.json'' \<and>
   normalize_id ''a.json.json'' \<noteq> strip_json_extension ''a.json.json''"
  by (simp add: normalize_id_def strip_json_extension_def endswith_def py_replace_def
      suffix_to_prefix)

subsection \<open>validate_workflow\<close>

lemma py_contains_obj: "py_contains k (JObj kvs) = Inr (map_of kvs k \<noteq> None)"
  by (simp add: py_contains_def map_of_eq_None_iff)

lemma missing_from_obj:
  "missing_from (JObj m) flds = Inr (filter (\<lambda>field. map_of m field = None) flds)"
  by (induction flds) (simp_all add: py_contains_obj)

text \<open>The validator on a dict, by the value of its key \<open>_meta\<close>.\<close>

lemma validate_workflow_obj:
  "validate_workflow (JObj kvs) filename =
     (case map_of kvs ''_meta'' of
        None \<Rightarrow> Inr (False, Some MissingMeta, None)
      | Some meta \<Rightarrow>
          (case missing_from meta required_meta_fields of
             Inl e \<Rightarrow> Inl e
           | Inr missing_fields \<Rightarrow>
               if missing_fields \<noteq> []
               then Inr (False, Some (MissingFields missing_fields), None)
               else
                 (case py_getitem meta ''id'' of
                    Inl e \<Rightarrow> Inl e
                  | Inr meta_id \<Rightarrow>
                      if meta_id \<noteq> JStr (normalize_id filename)
                      then Inr (False, Some (IdMismatch (normalize_id filename) meta_id), None)
                      else Inr (True, None, Some (JObj kvs)))))"
  by (simp add: validate_workflow_def py_contains_obj py_getitem_def Let_def
      split: option.splits sum.splits)

lemma validate_workflow_valid_obj:
  "validate_workflow data filename = Inr (True, msg, x) \<Longrightarrow> \<exists>kvs. data = JObj kvs"
  by (cases data)
    (auto simp: validate_workflow_def py_contains_def py_getitem_def Let_def
      split: if_splits sum.splits)

lemma validate_workflow_valid_result:
  "validate_workflow data filename = Inr (True, msg, x) \<Longrightarrow> msg = None \<and> x = Some data"
  by (auto simp: validate_workflow_def Let_def split: if_splits sum.splits)

text \<open>
  What the validator accepts: a dict whose \<open>_meta\<close> is a dict that has the six required
  keys and whose \<open>id\<close> is the string that \<open>normalize_id\<close> makes of the filename.
\<close>

lemma validate_workflow_valid_iff:
  "validate_workflow data filename = Inr (True, None, Some data) \<longleftrightarrow>
     (\<exists>kvs m. data = JObj kvs \<and> map_of kvs ''_meta'' = Some (JObj m) \<and>
        (\<forall>field \<in> set required_meta_fields. map_of m field \<noteq> None) \<and>
        map_of m ''id'' = Some (JStr (normalize_id filename)))"
  (is "?l \<longleftrightarrow> ?r")
proof
  assume l: ?l
  then obtain kvs where d: "data = JObj kvs"
    using validate_workflow_valid_obj by blast
  from l obtain meta where m: "map_of kvs ''_meta'' = Some meta"
    unfolding d validate_workflow_obj by (auto split: option.splits)
  show ?r
  proof (cases meta)
    case (JObj mm)
    with l d m show ?thesis
      by (auto simp: validate_workflow_obj missing_from_obj py_getitem_def filter_empty_conv
          split: if_splits option.splits)
  qed (use l d m in
        \<open>auto simp: validate_workflow_obj py_getitem_def split: sum.splits if_splits\<close>)
next
  assume ?r
  then show ?l
    by (auto simp: validate_workflow_obj missing_from_obj py_getitem_def filter_empty_conv)
qed


subsection \<open>clean_workflow_for_repo\<close>

lemma clean_obj: "clean_workflow_for_repo (JObj kvs) = Inr (JObj (clean_fields kvs))"
  by (simp add: clean_workflow_for_repo_def clean_fields_def)






lemma clean_fields_normalized:
  "(\<forall>k\<in>set runtime_flags. map_of kvs k = Some (JBool False)) \<Longrightarrow> clean_fields kvs = kvs"
  by (simp add: clean_fields_def runtime_flags_def update_triv)


subsection \<open>Verdicts of the validator\<close>

text \<open>
  Claim C3. The validator should accept a document exactly when it has a \<open>_meta\<close>
  sub-object with the six required fields whose \<open>id\<close> is the filename without its
  extension. For the file \<open>a.json.json\<close> the filename without its extension is
  \<open>a.json\<close>, and the validator rejects the document that declares this identifier (it
  expects \<open>a\<close>, by the defect of \<open>normalize_id\<close> shown for claim C2) and accepts the one
  that declares \<open>a\<close>. For the rest the claim holds, with \<open>normalize_id\<close> in the place of
  the stripped filename: lemmas \<open>validate_workflow_valid_iff\<close>,
  \<open>validate_workflow_valid_result\<close> and \<open>validate_workflow_obj\<close> with \<open>missing_from_obj\<close>.
\<close>

theorem C3_validate_workflow_at_double_extension:
  "strip_json_extension ''a.json.json'' = ''a.json'' \<and>
   validate_workflow (example_doc ''a.json'') ''a.json.json'' =
     Inr (False, Some (IdMismatch ''a'' (JStr ''a.json'')), None) \<and>
   validate_workflow (example_doc ''a'') ''a.json.json'' = Inr (True, None, Some (example_doc ''a''))"
  by code_simp

text \<open>
  Claim C10. The verdict and the message of the validator depend only on the value of
  \<open>_meta\<close> and on the filename: two documents with the same \<open>_meta\<close> (or both without
  one) get the same verdict and message, or raise the same exception, whatever their
  other top-level fields are.
\<close>

theorem C10_verdict_depends_on_meta_only:
  assumes "map_of kvs1 ''_meta'' = map_of kvs2 ''_meta''"
  shows "verdict (validate_workflow (JObj kvs1) filename) =
         verdict (validate_workflow (JObj kvs2) filename)"
  using assms
  by (simp add: validate_workflow_obj verdict_def split: option.splits sum.splits)

theorem C10_verdict_depends_on_meta_only_witness:
  "verdict (validate_workflow
      (JObj [(''_meta'', example_meta ''a''), (''isEnabled'', JBool True)]) ''a.json'') =
   verdict (validate_workflow
      (JObj [(''steps'', JArr [JInt 1]), (''_meta'', example_meta ''a'')]) ''a.json'')"
  using C10_verdict_depends_on_meta_only
    [of "[(''_meta'', example_meta ''a''), (''isEnabled'', JBool True)]"
        "[(''steps'', JArr [JInt 1]), (''_meta'', example_meta ''a'')]" "''a.json''"]
  by simp

subsection \<open>The loop of scan_directory\<close>

lemma load_json_Inr:
  "load_json d name = Inr data \<longleftrightarrow> (\<exists>f. map_of d name = Some f \<and> contents f = Loaded data)"
  by (auto simp: load_json_def split: option.splits file_content.splits)

lemma build_item_key:
  "map_of m ''id'' = Some (JStr i) \<Longrightarrow> build_item p name (JObj m) = Inr item \<Longrightarrow>
     item_key item = Some i \<and> py_getitem item ''filename'' = Inr (JStr name)"
  by (auto simp: build_item_def item_key_def dict_get_def py_getitem_def)

lemma process_file_load_error:
  "load_json (dir st) name = Inl e \<Longrightarrow>
   process_file p name st = skip name (caught e) st"
  by (simp add: process_file_def)

lemma process_file_invalid:
  "load_json (dir st) name = Inr data \<Longrightarrow> validate_workflow data name = Inr (False, msg, x) \<Longrightarrow>
   process_file p name st = skip name (Invalid msg) st"
  by (simp add: process_file_def)

lemma process_file_raises:
  "load_json (dir st) name = Inr data \<Longrightarrow> validate_workflow data name = Inl e \<Longrightarrow>
   process_file p name st = skip name (caught e) st"
  by (simp add: process_file_def)

lemma process_file_valid:
  assumes "map_of (dir st) name = Some f" "contents f = Loaded data"
    and "validate_workflow data name = Inr (True, msg, x)"
  shows "\<exists>kvs m item. data = JObj kvs \<and> map_of kvs ''_meta'' = Some (JObj m) \<and>
           map_of m ''id'' = Some (JStr (normalize_id name)) \<and>
           build_item p name (JObj m) = Inr item \<and>
           process_file p name st = accept name f kvs item st"
proof -
  from assms(3) have v: "validate_workflow data name = Inr (True, None, Some data)"
    using validate_workflow_valid_result by blast
  then obtain kvs m where d: "data = JObj kvs" and m: "map_of kvs ''_meta'' = Some (JObj m)"
    and i: "map_of m ''id'' = Some (JStr (normalize_id name))"
    unfolding validate_workflow_valid_iff by blast
  obtain item where b: "build_item p name (JObj m) = Inr item"
    by (simp add: build_item_def)
  have l: "load_json (dir st) name = Inr data"
    using assms(1,2) by (simp add: load_json_Inr)
  have g: "py_get data ''_meta'' (JObj []) = Inr (JObj m)"
    by (simp add: d py_get_def dict_get_def m)
  have c: "clean_workflow_for_repo data = Inr (JObj (clean_fields kvs))"
    by (simp add: d clean_obj)
  have "process_file p name st = accept name f kvs item st"
    using assms(1)
    by (simp add: process_file_def l v g c b dump_json_def Let_def caught_def accept_def)
  with d m i b show ?thesis by blast
qed

lemma process_file_cases [case_names skipped accepted]:
  obtains r where "process_file p name st = skip name r st"
  | f kvs m item where
      "map_of (dir st) name = Some f" "contents f = Loaded (JObj kvs)"
      "validate_workflow (JObj kvs) name = Inr (True, None, Some (JObj kvs))"
      "map_of kvs ''_meta'' = Some (JObj m)"
      "map_of m ''id'' = Some (JStr (normalize_id name))"
      "build_item p name (JObj m) = Inr item"
      "process_file p name st = accept name f kvs item st"
proof (cases "load_json (dir st) name")
  case (Inl e)
  from process_file_load_error [OF this] show ?thesis using that(1) by blast
next
  case (Inr data)
  then obtain f where f: "map_of (dir st) name = Some f" "contents f = Loaded data"
    by (auto simp: load_json_Inr)
  show ?thesis
  proof (cases "validate_workflow data name")
    case (Inl e)
    from process_file_raises [OF Inr this] show ?thesis using that(1) by blast
  next
    case v: (Inr t)
    obtain is_valid msg x where t: "t = (is_valid, msg, x)" by (cases t)
    show ?thesis
    proof (cases is_valid)
      case False
      with v t have "validate_workflow data name = Inr (False, msg, x)" by simp
      from process_file_invalid [OF Inr this] show ?thesis using that(1) by blast
    next
      case True
      with v t have v': "validate_workflow data name = Inr (True, msg, x)" by simp
      from process_file_valid [OF f v', of p] validate_workflow_valid_result [OF v'] v' f
      show ?thesis using that(2) by blast
    qed
  qed
qed

text \<open>What the step for an accepted file appends and writes.\<close>

lemma accept_items: "items (accept name f kvs item st) = items st @ [item]"
  by (simp add: accept_def skip_def)

lemma accept_errors:
  "\<exists>errs. (\<forall>e \<in> set errs. fst e = name) \<and>
     (\<forall>st. errors (accept name f kvs item st) = errors st @ errs \<and>
           skipped_files (accept name f kvs item st) = skipped_files st @ map fst errs)"
proof (cases "writable f")
  case False
  then show ?thesis
    by (intro exI [of _ "[(name, Exception PermissionError)]"]) (simp add: accept_def skip_def)
next
  case True
  show ?thesis
  proof (cases "dumpable (JObj (clean_fields kvs)) \<and> success_line_encodable name item")
    case good: True
    with True show ?thesis
      by (intro exI [of _ "[]"]) (simp add: accept_def)
  next
    case False
    with True show ?thesis
      by (intro exI [of _ "[(name, Exception UnicodeEncodeError)]"])
        (auto simp: accept_def skip_def)
  qed
qed

lemma accept_dir:
  "dir (accept name f kvs item st) =
     (if writable f
      then AList.update name (f\<lparr>contents := written (JObj (clean_fields kvs))\<rparr>) (dir st)
      else dir st)"
  by (simp add: accept_def skip_def)

lemma process_file_lists:
  "\<exists>its errs. items (process_file p name st) = items st @ its \<and>
     errors (process_file p name st) = errors st @ errs \<and>
     skipped_files (process_file p name st) = skipped_files st @ map fst errs \<and>
     (\<forall>it \<in> set its. item_key it = Some (normalize_id name) \<and>
                      py_getitem it ''filename'' = Inr (JStr name)) \<and>
     (\<forall>e \<in> set errs. fst e = name)"
proof (cases p name st rule: process_file_cases)
  case (skipped r)
  then show ?thesis
    by (intro exI [of _ "[]"] exI [of _ "[(name, r)]"]) (simp add: skip_def)
next
  case (accepted f kvs m item)
  note k = build_item_key [OF accepted(5,6)]
  from accept_errors [of name f kvs item]
  obtain errs where "errors (accept name f kvs item st) = errors st @ errs"
    "skipped_files (accept name f kvs item st) = skipped_files st @ map fst errs"
    "\<forall>e \<in> set errs. fst e = name"
    by blast
  with accepted(7) k show ?thesis
    by (intro exI [of _ "[item]"] exI [of _ errs]) (simp add: accept_items)
qed

lemma process_file_frame:
  "n \<noteq> name \<Longrightarrow> map_of (dir (process_file p name st)) n = map_of (dir st) n"
  by (cases p name st rule: process_file_cases) (auto simp: skip_def accept_dir update_conv')

lemma process_file_names: "map fst (dir (process_file p name st)) = map fst (dir st)"
proof (cases p name st rule: process_file_cases)
  case (accepted f kvs m item)
  from accepted(1) have "name \<in> set (map fst (dir st))"
    by (metis map_of_eq_None_iff option.distinct(1) set_map)
  with accepted(7) show ?thesis by (simp add: accept_dir update_keys)
qed (simp add: skip_def)

lemma scan_loop_lists:
  "\<exists>its errs. items (scan_loop p names st) = items st @ its \<and>
     errors (scan_loop p names st) = errors st @ errs \<and>
     skipped_files (scan_loop p names st) = skipped_files st @ map fst errs \<and>
     (\<forall>it \<in> set its. \<exists>n \<in> set names. n \<noteq> ''index.json'' \<and> item_key it = Some (normalize_id n) \<and>
                      py_getitem it ''filename'' = Inr (JStr n)) \<and>
     (\<forall>e \<in> set errs. fst e \<in> set names \<and> fst e \<noteq> ''index.json'')"
proof (induction names arbitrary: st)
  case Nil
  show ?case by simp
next
  case (Cons name names)
  show ?case
  proof (cases "name = ''index.json''")
    case True
    with Cons [of st] show ?thesis by fastforce
  next
    case False
    obtain its1 errs1 where 1: "items (process_file p name st) = items st @ its1"
      "errors (process_file p name st) = errors st @ errs1"
      "skipped_files (process_file p name st) = skipped_files st @ map fst errs1"
      "\<forall>it \<in> set its1. item_key it = Some (normalize_id name) \<and>
                      py_getitem it ''filename'' = Inr (JStr name)"
      "\<forall>e \<in> set errs1. fst e = name"
      using process_file_lists [of p name st] by blast
    obtain its2 errs2 where 2:
      "items (scan_loop p names (process_file p name st)) = items (process_file p name st) @ its2"
      "errors (scan_loop p names (process_file p name st)) = errors (process_file p name st) @ errs2"
      "skipped_files (scan_loop p names (process_file p name st)) =
         skipped_files (process_file p name st) @ map fst errs2"
      "\<forall>it \<in> set its2. \<exists>n \<in> set names. n \<noteq> ''index.json'' \<and> item_key it = Some (normalize_id n) \<and>
                      py_getitem it ''filename'' = Inr (JStr n)"
      "\<forall>e \<in> set errs2. fst e \<in> set names \<and> fst e \<noteq> ''index.json''"
      using Cons [of "process_file p name st"] by blast
    show ?thesis
      using False 1 2
      by (intro exI [of _ "its1 @ its2"] exI [of _ "errs1 @ errs2"]) auto
  qed
qed

lemma scan_loop_frame:
  "n \<notin> set names \<or> n = ''index.json'' \<Longrightarrow> map_of (dir (scan_loop p names st)) n = map_of (dir st) n"
  by (induction names arbitrary: st) (auto simp: process_file_frame)

lemma scan_loop_names: "map fst (dir (scan_loop p names st)) = map fst (dir st)"
  by (induction names arbitrary: st) (auto simp: process_file_names)

subsection \<open>scan_directory\<close>

lemma scan_directory_Some:
  "scan_directory ps p (Some d) =
     Inr ((items (scan_loop (ps p) (glob_json d)
             \<lparr>items = [], errors = [], skipped_files = [], dir = d\<rparr>),
           errors (scan_loop (ps p) (glob_json d)
             \<lparr>items = [], errors = [], skipped_files = [], dir = d\<rparr>),
           skipped_files (scan_loop (ps p) (glob_json d)
             \<lparr>items = [], errors = [], skipped_files = [], dir = d\<rparr>)),
          Some (dir (scan_loop (ps p) (glob_json d)
             \<lparr>items = [], errors = [], skipped_files = [], dir = d\<rparr>)))"
  by (simp add: scan_directory_def Let_def)

lemma scan_directory_None:
  "scan_directory ps p None =
     (if encodable p then Inr (([], [], []), None) else Inl UnicodeEncodeError)"
  by (simp add: scan_directory_def)

lemma scan_directory_lists:
  assumes "scan_directory ps p fs = Inr ((its, errs, skipped), fs1)"
  shows "map fst errs = skipped" "list_all (\<lambda>x. item_key x \<noteq> None) its"
proof -
  show "map fst errs = skipped"
  proof (cases fs)
    case None
    with assms show ?thesis by (simp add: scan_directory_None split: if_splits)
  next
    case (Some d)
    with assms scan_loop_lists [of "ps p" "glob_json d"
        "\<lparr>items = [], errors = [], skipped_files = [], dir = d\<rparr>"]
    show ?thesis by (auto simp: scan_directory_Some)
  qed
  show "list_all (\<lambda>x. item_key x \<noteq> None) its"
  proof (cases fs)
    case None
    with assms show ?thesis by (simp add: scan_directory_None split: if_splits)
  next
    case (Some d)
    with assms scan_loop_lists [of "ps p" "glob_json d"
        "\<lparr>items = [], errors = [], skipped_files = [], dir = d\<rparr>"]
    show ?thesis by (auto simp: scan_directory_Some list_all_iff)
  qed
qed

text \<open>
  Claim C9. After any scan, the list of errors and the list of skipped files have the
  same length; more, the names of the files in the errors are the skipped files, entry
  by entry. The scan returns its lists unless the directory is missing and the line that
  reports it cannot be printed.
\<close>

theorem C9_errors_match_skipped_files:
  "case scan_directory path_str directory_path fs of
     Inl e \<Rightarrow> fs = None \<and> \<not> encodable directory_path
   | Inr ((its, errs, skipped), fs1) \<Rightarrow>
       length errs = length skipped \<and> map fst errs = skipped"
proof (cases "scan_directory path_str directory_path fs")
  case (Inl e)
  then show ?thesis
    by (cases fs) (simp_all add: scan_directory_None scan_directory_Some split: if_splits)
next
  case (Inr r)
  obtain its errs skipped fs1 where r: "r = ((its, errs, skipped), fs1)"
    by (metis prod.exhaust)
  from scan_directory_lists(1) [OF Inr [unfolded r]] have "map fst errs = skipped" .
  moreover from this have "length errs = length skipped" by (metis length_map)
  ultimately show ?thesis by (simp add: Inr r)
qed

theorem C9_errors_match_skipped_files_witness:
  "(case scan_directory example_path_str ''workflows'' (Some example_dir) of
      Inl e \<Rightarrow> Some example_dir = None \<and> \<not> encodable ''workflows''
    | Inr ((its, errs, skipped), fs1) \<Rightarrow>
        length errs = length skipped \<and> map fst errs = skipped) \<and>
   (case scan_directory example_path_str ''workflows'' (Some example_dir) of
      Inl e \<Rightarrow> False
    | Inr ((its, errs, skipped), fs1) \<Rightarrow>
        errs = [(''broken.json'', JSONParseError (Message ''Expecting value'')),
                (''nometa.json'', Invalid (Some MissingMeta))] \<and>
        skipped = [''broken.json'', ''nometa.json''])"
proof (rule conjI)
  show "case scan_directory example_path_str ''workflows'' (Some example_dir) of
      Inl e \<Rightarrow> Some example_dir = None \<and> \<not> encodable ''workflows''
    | Inr ((its, errs, skipped), fs1) \<Rightarrow>
        length errs = length skipped \<and> map fst errs = skipped"
    by (rule C9_errors_match_skipped_files)
  show "case scan_directory example_path_str ''workflows'' (Some example_dir) of
      Inl e \<Rightarrow> False
    | Inr ((its, errs, skipped), fs1) \<Rightarrow>
        errs = [(''broken.json'', JSONParseError (Message ''Expecting value'')),
                (''nometa.json'', Invalid (Some MissingMeta))] \<and>
        skipped = [''broken.json'', ''nometa.json'']"
    by code_simp
qed

subsection \<open>Files that the validator rejects\<close>

lemma process_file_rejected:
  assumes "map_of (dir st) name = Some f" "contents f = Loaded data"
    and "validate_workflow data name = Inr (False, msg, x)"
  shows "process_file p name st = skip name (Invalid msg) st"
  using assms by (intro process_file_invalid) (auto simp: load_json_Inr)

lemma process_file_rejected_step:
  assumes "contents f = Loaded data" "validate_workflow data name = Inr (False, msg, x)"
    and "map_of (dir st) name = Some f"
  shows "map_of (dir (process_file p n st)) name = Some f"
    and "\<forall>it \<in> set (items st). py_getitem it ''filename'' \<noteq> Inr (JStr name) \<Longrightarrow>
         \<forall>it \<in> set (items (process_file p n st)). py_getitem it ''filename'' \<noteq> Inr (JStr name)"
    and "set (errors st) \<subseteq> set (errors (process_file p n st))"
    and "n = name \<Longrightarrow> (name, Invalid msg) \<in> set (errors (process_file p n st))"
proof -
  have same: "process_file p n st = skip name (Invalid msg) st" if "n = name"
    using that process_file_rejected [OF assms(3,1,2)] by simp
  obtain its errs where l: "items (process_file p n st) = items st @ its"
    "errors (process_file p n st) = errors st @ errs"
    "\<forall>it \<in> set its. py_getitem it ''filename'' = Inr (JStr n)"
    using process_file_lists [of p n st] by blast
  show "map_of (dir (process_file p n st)) name = Some f"
    using assms(3) same by (cases "n = name") (simp_all add: skip_def process_file_frame)
  show "\<forall>it \<in> set (items (process_file p n st)). py_getitem it ''filename'' \<noteq> Inr (JStr name)"
    if "\<forall>it \<in> set (items st). py_getitem it ''filename'' \<noteq> Inr (JStr name)"
  proof (cases "n = name")
    case True
    with that same show ?thesis by (simp add: skip_def)
  next
    case False
    with that l(1,3) show ?thesis by auto
  qed
  show "set (errors st) \<subseteq> set (errors (process_file p n st))"
    using l(2) by simp
  show "(name, Invalid msg) \<in> set (errors (process_file p n st))" if "n = name"
    using same [OF that] by (simp add: skip_def)
qed

lemma scan_loop_rejected_file:
  assumes "contents f = Loaded data" "validate_workflow data name = Inr (False, msg, x)"
  shows "map_of (dir st) name = Some f \<Longrightarrow>
         map_of (dir (scan_loop p names st)) name = Some f"
proof (induction names arbitrary: st)
  case (Cons n names)
  let ?st' = "if n = ''index.json'' then st else process_file p n st"
  have "map_of (dir ?st') name = Some f"
    using Cons.prems process_file_rejected_step(1) [OF assms Cons.prems] by simp
  then show ?case
    unfolding scan_loop.simps by (rule Cons.IH)
qed simp

lemma scan_loop_errors_mono: "set (errors st) \<subseteq> set (errors (scan_loop p names st))"
proof (induction names arbitrary: st)
  case (Cons n names)
  obtain errs where "errors (process_file p n st) = errors st @ errs"
    using process_file_lists [of p n st] by blast
  then have "set (errors st) \<subseteq> set (errors (if n = ''index.json'' then st else process_file p n st))"
    by simp
  also have "\<dots> \<subseteq> set (errors (scan_loop p (n # names) st))"
    unfolding scan_loop.simps by (rule Cons.IH)
  finally show ?case .
qed simp

lemma scan_loop_rejected_error:
  assumes "contents f = Loaded data" "validate_workflow data name = Inr (False, msg, x)"
    and "name \<noteq> ''index.json''"
  shows "map_of (dir st) name = Some f \<Longrightarrow> name \<in> set names \<Longrightarrow>
         (name, Invalid msg) \<in> set (errors (scan_loop p names st))"
proof (induction names arbitrary: st)
  case (Cons n names)
  let ?st' = "if n = ''index.json'' then st else process_file p n st"
  have f: "map_of (dir ?st') name = Some f"
    using Cons.prems(1) process_file_rejected_step(1) [OF assms(1,2) Cons.prems(1)] by simp
  show ?case
  proof (cases "n = name")
    case True
    with assms(3) have "(name, Invalid msg) \<in> set (errors ?st')"
      using process_file_rejected_step(4) [OF assms(1,2) Cons.prems(1)] by simp
    then have "(name, Invalid msg) \<in> set (errors (scan_loop p names ?st'))"
      using scan_loop_errors_mono by blast
    then show ?thesis by simp
  next
    case False
    with Cons.prems(2) have "name \<in> set names" by simp
    from Cons.IH [OF f this] show ?thesis by simp
  qed
qed simp

lemma scan_loop_rejected_items:
  assumes "contents f = Loaded data" "validate_workflow data name = Inr (False, msg, x)"
  shows "map_of (dir st) name = Some f \<Longrightarrow>
         \<forall>it \<in> set (items st). py_getitem it ''filename'' \<noteq> Inr (JStr name) \<Longrightarrow>
         \<forall>it \<in> set (items (scan_loop p names st)). py_getitem it ''filename'' \<noteq> Inr (JStr name)"
proof (induction names arbitrary: st)
  case (Cons n names)
  let ?st' = "if n = ''index.json'' then st else process_file p n st"
  have f: "map_of (dir ?st') name = Some f"
    using Cons.prems(1) process_file_rejected_step(1) [OF assms Cons.prems(1)] by simp
  have i: "\<forall>it \<in> set (items ?st'). py_getitem it ''filename'' \<noteq> Inr (JStr name)"
    using Cons.prems(2) process_file_rejected_step(2) [OF assms Cons.prems] by simp
  from Cons.IH [OF f i] show ?case by simp
qed simp

lemma glob_json_mem:
  "map_of d name = Some f \<Longrightarrow> endswith name ''.json'' \<Longrightarrow> name \<in> set (glob_json d)"
  by (auto simp: glob_json_def dest: map_of_SomeD intro: rev_image_eqI)

text \<open>
  Claim C8. A file that fails validation gets no catalog entry, an error that names the
  file and gives the validator's message is recorded (and the file is among the skipped
  ones), and the scan leaves the file as it was.
\<close>

theorem C8_rejected_file_untouched:
  assumes "map_of d name = Some f" "contents f = Loaded data"
    and "endswith name ''.json''" "name \<noteq> ''index.json''"
    and "validate_workflow data name = Inr (False, msg, x)"
  shows "\<exists>its errs skipped d'.
           scan_directory path_str directory_path (Some d) =
             Inr ((its, errs, skipped), Some d') \<and>
           (\<forall>it \<in> set its. py_getitem it ''filename'' \<noteq> Inr (JStr name)) \<and>
           (name, Invalid msg) \<in> set errs \<and> name \<in> set skipped \<and>
           map_of d' name = Some f"
proof -
  let ?st = "\<lparr>items = [], errors = [], skipped_files = [], dir = d\<rparr>"
  let ?r = "scan_loop (path_str directory_path) (glob_json d) ?st"
  have 1: "\<forall>it \<in> set (items ?r). py_getitem it ''filename'' \<noteq> Inr (JStr name)"
    using assms(1) by (intro scan_loop_rejected_items [OF assms(2,5)]) simp_all
  have 2: "(name, Invalid msg) \<in> set (errors ?r)"
    using assms(1) glob_json_mem [OF assms(1,3)]
    by (intro scan_loop_rejected_error [OF assms(2,5,4)]) simp_all
  have 3: "map_of (dir ?r) name = Some f"
    using assms(1) by (intro scan_loop_rejected_file [OF assms(2,5)]) simp
  have "map fst (errors ?r) = skipped_files ?r"
    using scan_loop_lists [of "path_str directory_path" "glob_json d" ?st] by auto
  with 2 have 4: "name \<in> set (skipped_files ?r)"
    by (metis fst_conv image_eqI set_map)
  from 1 2 3 4 show ?thesis
    by (simp add: scan_directory_Some)
qed

theorem C8_rejected_file_untouched_witness:
  "\<exists>its errs skipped d'.
     scan_directory example_path_str ''workflows'' (Some example_dir) =
       Inr ((its, errs, skipped), Some d') \<and>
     (\<forall>it \<in> set its. py_getitem it ''filename'' \<noteq> Inr (JStr ''nometa.json'')) \<and>
     (''nometa.json'', Invalid (Some MissingMeta)) \<in> set errs \<and> ''nometa.json'' \<in> set skipped \<and>
     map_of d' ''nometa.json'' =
       Some \<lparr>contents = Loaded (JObj [(''steps'', JArr [])]), writable = True\<rparr>"
proof -
  have 1: "map_of example_dir ''nometa.json'' =
      Some \<lparr>contents = Loaded (JObj [(''steps'', JArr [])]), writable = True\<rparr>"
    by (simp add: example_dir_def)
  have 2: "contents \<lparr>contents = Loaded (JObj [(''steps'', JArr [])]), writable = True\<rparr> =
      Loaded (JObj [(''steps'', JArr [])])"
    by simp
  have 3: "endswith ''nometa.json'' ''.json''"
    by (simp add: endswith_def suffix_to_prefix)
  have 4: "''nometa.json'' \<noteq> ''index.json''"
    by simp
  have 5: "validate_workflow (JObj [(''steps'', JArr [])]) ''nometa.json'' =
      Inr (False, Some MissingMeta, None)"
    by (simp add: validate_workflow_obj)
  from C8_rejected_file_untouched [OF 1 2 3 4 5] show ?thesis .
qed

subsection \<open>generate_index\<close>

text \<open>The dump of the index succeeds when the index file can be written and the text encoded.\<close>

lemma dump_json_index:
  "dump_json d ''index.json'' v = (None, d') \<longleftrightarrow>
     index_writable d \<and> dumpable v \<and> snd (dump_json d ''index.json'' v) = d'"
  by (auto simp: dump_json_def index_writable_def split: option.splits if_splits)

lemma dump_json_index_result:
  assumes "index_writable d" "dumpable v"
  shows "map_of (snd (dump_json d ''index.json'' v)) =
           (map_of d)(''index.json'' \<mapsto> \<lparr>contents = Loaded v, writable = True\<rparr>)"
    and "filter (\<lambda>n. n \<noteq> ''index.json'') (map fst (snd (dump_json d ''index.json'' v))) =
           filter (\<lambda>n. n \<noteq> ''index.json'') (map fst d)"
proof -
  show "map_of (snd (dump_json d ''index.json'' v)) =
           (map_of d)(''index.json'' \<mapsto> \<lparr>contents = Loaded v, writable = True\<rparr>)"
  proof (cases "map_of d ''index.json''")
    case None
    with assms(2) show ?thesis
      by (auto simp: dump_json_def written_def map_add_def fun_eq_iff split: option.splits)
  next
    case (Some f)
    with assms(1) have w: "writable f" by (simp add: index_writable_def)
    obtain c where f: "f = \<lparr>contents = c, writable = True\<rparr>"
      using w by (cases f) simp
    from Some assms(2) show ?thesis
      unfolding f by (simp add: dump_json_def written_def update_conv')
  qed
  show "filter (\<lambda>n. n \<noteq> ''index.json'') (map fst (snd (dump_json d ''index.json'' v))) =
           filter (\<lambda>n. n \<noteq> ''index.json'') (map fst d)"
  proof (cases "map_of d ''index.json''")
    case None
    then show ?thesis by (simp add: dump_json_def)
  next
    case (Some f)
    with assms(1) have "writable f" by (simp add: index_writable_def)
    with Some show ?thesis by (simp add: dump_json_def update_keys)
  qed
qed

text \<open>
  A run over an existing directory returns exactly when every line that it prints and
  the index can be encoded and the index file can be written; it then leaves the sorted
  entries of the scan as the catalog and asks for the status 1 if the scan recorded an
  error, and for 0 otherwise.
\<close>

lemma generate_index_returns_iff:
  assumes "scan_directory ps p (Some d) = Inr ((its, errs, skipped), Some d0)"
  shows "generate_index ps p ''index.json'' now (Some d) = (fs', Inr status) \<longleftrightarrow>
     encodable p \<and> list_all error_line_encodable errs \<and> index_writable d0 \<and>
     dumpable (build_index now (sort_key (\<lambda>x. the (item_key x)) its)) \<and>
     encodable (ps p ''index.json'') \<and> encodable now \<and>
     fs' = Some (snd (dump_json d0 ''index.json''
                   (build_index now (sort_key (\<lambda>x. the (item_key x)) its)))) \<and>
     status = (if errs \<noteq> [] then 1 else 0)"
proof -
  have s: "sort_by_id its = Inr (sort_key (\<lambda>x. the (item_key x)) its)"
    using scan_directory_lists(2) [OF assms] by (simp add: sort_by_id_def)
  obtain e d' where w: "dump_json d0 ''index.json''
      (build_index now (sort_key (\<lambda>x. the (item_key x)) its)) = (e, d')"
    by (cases "dump_json d0 ''index.json''
      (build_index now (sort_key (\<lambda>x. the (item_key x)) its))")
  show ?thesis
  proof (cases e)
    case None
    with w have "index_writable d0"
      "dumpable (build_index now (sort_key (\<lambda>x. the (item_key x)) its))"
      by (simp_all add: dump_json_index)
    with w None show ?thesis
      by (auto simp: generate_index_def assms s write_file_def)
  next
    case (Some x)
    with w have "\<not> (index_writable d0 \<and>
        dumpable (build_index now (sort_key (\<lambda>x. the (item_key x)) its)))"
      using dump_json_index [of d0 "build_index now (sort_key (\<lambda>x. the (item_key x)) its)" d']
      by auto
    with w Some show ?thesis
      by (auto simp: generate_index_def assms s write_file_def)
  qed
qed

lemma scan_directory_existing:
  obtains its errs skipped d0 where
    "scan_directory ps p (Some d) = Inr ((its, errs, skipped), Some d0)"
    "map_of d0 ''index.json'' = map_of d ''index.json''" "map fst d0 = map fst d"
proof -
  let ?st = "scan_loop (ps p) (glob_json d) \<lparr>items = [], errors = [], skipped_files = [], dir = d\<rparr>"
  have "map_of (dir ?st) ''index.json'' = map_of d ''index.json''"
    using scan_loop_frame [of "''index.json''" "glob_json d" "ps p"] by simp
  moreover have "map fst (dir ?st) = map fst d"
    by (simp add: scan_loop_names)
  ultimately show ?thesis
    using that [of "items ?st" "errors ?st" "skipped_files ?st" "dir ?st"]
    by (simp add: scan_directory_Some)
qed

lemma generate_index_returns:
  assumes "generate_index ps p ''index.json'' now (Some d) = (fs', Inr status)"
  obtains its errs skipped d0 d' where
    "scan_directory ps p (Some d) = Inr ((its, errs, skipped), Some d0)"
    "fs' = Some d'" "status = (if errs \<noteq> [] then 1 else 0)"
    "map_of d' = (map_of d0)(''index.json'' \<mapsto>
       \<lparr>contents = Loaded (build_index now (sort_key (\<lambda>x. the (item_key x)) its)),
        writable = True\<rparr>)"
    "filter (\<lambda>n. n \<noteq> ''index.json'') (map fst d') = filter (\<lambda>n. n \<noteq> ''index.json'') (map fst d)"
    "encodable p" "list_all error_line_encodable errs" "index_writable d"
    "dumpable (build_index now (sort_key (\<lambda>x. the (item_key x)) its))"
    "encodable (ps p ''index.json'')" "encodable now"
proof -
  obtain its errs skipped d0 where r:
    "scan_directory ps p (Some d) = Inr ((its, errs, skipped), Some d0)"
    "map_of d0 ''index.json'' = map_of d ''index.json''" "map fst d0 = map fst d"
    by (rule scan_directory_existing)
  let ?v = "build_index now (sort_key (\<lambda>x. the (item_key x)) its)"
  from assms have c: "encodable p" "list_all error_line_encodable errs" "index_writable d0"
    "dumpable ?v" "encodable (ps p ''index.json'')" "encodable now"
    "fs' = Some (snd (dump_json d0 ''index.json'' ?v))" "status = (if errs \<noteq> [] then 1 else 0)"
    unfolding generate_index_returns_iff [OF r(1)] by simp_all
  from c(3) r(2) have w: "index_writable d" by (simp add: index_writable_def)
  from dump_json_index_result [OF c(3,4)] r(3) c w show ?thesis
    using that [of its errs skipped d0 "snd (dump_json d0 ''index.json'' ?v)"] r(1) by simp
qed

lemma exit_status_returned:
  assumes "generate_index ps p ''index.json'' now (Some d) = (fs', Inr status)"
    and "scan_directory ps p (Some d) = Inr ((its, errs, skipped), fs1)"
  shows "status \<noteq> 0 \<longleftrightarrow> errs \<noteq> []"
  using generate_index_returns [OF assms(1)] assms(2) by (metis Pair_inject sum.inject(2) zero_neq_one)

lemma encodable_keys:
  "encodable ''version''" "encodable ''last_updated''" "encodable ''total_count''"
  "encodable ''workflows''" "encodable ''1.0''"
  by code_simp+

lemma dumpable_build_index:
  "dumpable (build_index now xs) \<longleftrightarrow> encodable now \<and> list_all dumpable xs"
  by (simp add: build_index_def encodable_keys)

lemma empty_directory:
  assumes "encodable directory" "encodable now" "encodable (ps directory ''index.json'')"
  shows "generate_index ps directory ''index.json'' now (Some []) =
     (Some [(''index.json'',
             \<lparr>contents = Loaded (JObj [(''version'', JStr ''1.0''), (''last_updated'', JStr now),
                                        (''total_count'', JInt 0), (''workflows'', JArr [])]),
              writable = True\<rparr>)], Inr 0)"
proof -
  have "dumpable (build_index now [])"
    using assms(2) by (simp add: dumpable_build_index)
  then show ?thesis
    using assms
    by (simp add: generate_index_def scan_directory_def glob_json_def sort_by_id_def
        write_file_def dump_json_def written_def)
      (simp add: build_index_def)
qed

text \<open>
  Claim C7. When the scanned directory does not exist the run should end with an empty
  result and without an exception. The scan does return the empty result (when the line
  that reports the missing directory can be printed), but \<open>generate_index\<close> goes on to
  open the index file for writing in the missing directory, which raises
  \<open>FileNotFoundError\<close>; nothing catches it. The run raises for every path of a missing
  directory: one that cannot be printed ends it with \<open>UnicodeEncodeError\<close> at the first
  \<open>print\<close>.
\<close>

theorem C7_missing_directory_raises:
  "scan_directory path_str directory None =
     (if encodable directory then Inr (([], [], []), None) else Inl UnicodeEncodeError) \<and>
   generate_index path_str directory output_file now None =
     (None, Inl (if encodable directory then FileNotFoundError else UnicodeEncodeError))"
  by (simp add: scan_directory_def generate_index_def sort_by_id_def write_file_def)

text \<open>
  Claim C6. The process should end with a status other than zero exactly when a file
  produced an error. On a directory that does not exist no file produces an error, and
  the process ends with status 1, by the exception shown for claim C7. When a run over
  an existing directory returns, the status is 1 exactly when the list of errors is not
  empty, and an empty directory gets a catalog without entries and the status 0 (lemmas
  \<open>generate_index_returns\<close>, \<open>exit_status_returned\<close> and \<open>empty_directory\<close>).
\<close>

theorem C6_missing_directory_exit_status:
  "scan_directory path_str ''missing'' None = Inr (([], [], []), None) \<and>
   main path_str [''generate-index.py'', ''missing''] now None = (None, Inl FileNotFoundError) \<and>
   exit_status (main path_str [''generate-index.py'', ''missing''] now None) = 1"
proof -
  have "encodable ''missing''" by code_simp
  then show ?thesis
    by (simp add: main_def scan_directory_def generate_index_def sort_by_id_def write_file_def
        exit_status_def)
qed

subsection \<open>Files that the validator accepts\<close>





lemma process_file_accepted:
  assumes "validate_workflow (JObj kvs) name = Inr (True, None, Some (JObj kvs))"
    and "contents f = Loaded (JObj kvs)" "map_of (dir st) name = Some f"
  shows "\<exists>item. py_getitem item ''filename'' = Inr (JStr name) \<and>
           item_key item = Some (normalize_id name) \<and>
           process_file p name st = accept name f kvs item st"
proof -
  from process_file_valid [OF assms(3,2,1), of p]
  obtain kvs' m item where *: "JObj kvs = JObj kvs'"
    "map_of m ''id'' = Some (JStr (normalize_id name))"
    "build_item p name (JObj m) = Inr item"
    "process_file p name st = accept name f kvs' item st"
    by blast
  from build_item_key [OF *(2,3)] *(1,4) show ?thesis by auto
qed




lemma scan_loop_items_mono: "set (items st) \<subseteq> set (items (scan_loop p names st))"
  using scan_loop_lists [of p names st] by auto

lemma scan_loop_accepted_item:
  assumes "validate_workflow (JObj kvs) name = Inr (True, None, Some (JObj kvs))"
    and "contents f = Loaded (JObj kvs)" "name \<noteq> ''index.json''"
  shows "map_of (dir st) name = Some f \<Longrightarrow> name \<in> set names \<Longrightarrow>
         \<exists>item \<in> set (items (scan_loop p names st)).
           py_getitem item ''filename'' = Inr (JStr name) \<and> item_key item = Some (normalize_id name)"
proof (induction names arbitrary: st)
  case (Cons n names)
  show ?case
  proof (cases "n = name")
    case True
    from process_file_accepted [OF assms(1,2) Cons.prems(1), of p]
    obtain item where "py_getitem item ''filename'' = Inr (JStr name)"
      "item_key item = Some (normalize_id name)" "item \<in> set (items (process_file p name st))"
      by (auto simp: accept_items)
    then show ?thesis
      using True assms(3) scan_loop_items_mono [of "process_file p name st" p names] by auto
  next
    case False
    with Cons.prems have "name \<in> set names"
      and "map_of (dir (if n = ''index.json'' then st else process_file p n st)) name = Some f"
      by (simp_all add: process_file_frame)
    from Cons.IH [OF this(2,1)] show ?thesis by simp
  qed
qed simp




subsection \<open>The order of the catalog\<close>

lemma item_key_Some: "item_key x = Some s \<longleftrightarrow> py_getitem x ''id'' = Inr (JStr s)"
  by (auto simp: item_key_def py_getitem_def split: json.splits option.splits)

lemma catalog_written:
  "map_of d' = (map_of d0)(''index.json'' \<mapsto> \<lparr>contents = Loaded v, writable = True\<rparr>) \<Longrightarrow>
   catalog (Some d') = Some v"
  by (simp add: catalog_def)

text \<open>
  Claim C4. The catalog that a run produces (a run over an existing directory that
  returns) has entries that all have a string as \<open>id\<close> and are sorted ascending by it,
  in the lexicographic order of strings; entries with the same \<open>id\<close> keep the order in
  which the scan produced them. Every valid workflow file has an entry, whose \<open>id\<close> is
  the identifier that \<open>normalize_id\<close> derives from its filename.
\<close>

theorem C4_catalog_sorted_by_id:
  assumes "generate_index path_str directory ''index.json'' now (Some d) = (fs', Inr status)"
  shows "\<exists>xs.
     catalog fs' = Some (build_index now xs) \<and>
     (\<forall>x \<in> set xs. \<exists>s. py_getitem x ''id'' = Inr (JStr s)) \<and>
     sorted (map (\<lambda>x. the (item_key x)) xs) \<and>
     (\<forall>k. filter (\<lambda>x. the (item_key x) = k) xs =
          filter (\<lambda>x. the (item_key x) = k) (scan_items path_str directory (Some d))) \<and>
     (\<forall>name f kvs.
        map_of d name = Some f \<and> contents f = Loaded (JObj kvs) \<and>
        endswith name ''.json'' \<and> name \<noteq> ''index.json'' \<and>
        validate_workflow (JObj kvs) name = Inr (True, None, Some (JObj kvs)) \<longrightarrow>
        (\<exists>x \<in> set xs. py_getitem x ''filename'' = Inr (JStr name) \<and>
                       py_getitem x ''id'' = Inr (JStr (normalize_id name))))"
proof -
  from assms obtain its errs skipped d0 d' where
    r: "scan_directory path_str directory (Some d) = Inr ((its, errs, skipped), Some d0)"
    and g: "fs' = Some d'"
      "map_of d' = (map_of d0)(''index.json'' \<mapsto>
         \<lparr>contents = Loaded (build_index now (sort_key (\<lambda>x. the (item_key x)) its)),
          writable = True\<rparr>)"
    by (rule generate_index_returns)
  let ?xs = "sort_key (\<lambda>x. the (item_key x)) its"
  have 1: "catalog fs' = Some (build_index now ?xs)"
    unfolding g(1) using g(2) by (rule catalog_written)
  have 2: "\<forall>x \<in> set ?xs. \<exists>s. py_getitem x ''id'' = Inr (JStr s)"
    using scan_directory_lists(2) [OF r] by (auto simp: list_all_iff item_key_Some [symmetric])
  have 3: "sorted (map (\<lambda>x. the (item_key x)) ?xs)"
    by (rule sorted_sort_key)
  have 4: "filter (\<lambda>x. the (item_key x) = k) ?xs =
      filter (\<lambda>x. the (item_key x) = k) (scan_items path_str directory (Some d))" for k
    by (simp add: scan_items_def r sort_key_stable)
  have 5: "\<exists>x \<in> set ?xs. py_getitem x ''filename'' = Inr (JStr name) \<and>
                       py_getitem x ''id'' = Inr (JStr (normalize_id name))"
    if a: "map_of d name = Some f \<and> contents f = Loaded (JObj kvs) \<and>
        endswith name ''.json'' \<and> name \<noteq> ''index.json'' \<and>
        validate_workflow (JObj kvs) name = Inr (True, None, Some (JObj kvs))" for name f kvs
  proof -
    from a have "name \<in> set (glob_json d)"
      by (simp add: glob_json_mem)
    with a have "\<exists>item \<in> set (items (scan_loop (path_str directory) (glob_json d)
          \<lparr>items = [], errors = [], skipped_files = [], dir = d\<rparr>)).
        py_getitem item ''filename'' = Inr (JStr name) \<and> item_key item = Some (normalize_id name)"
      by (intro scan_loop_accepted_item) simp_all
    moreover have "its = items (scan_loop (path_str directory) (glob_json d)
          \<lparr>items = [], errors = [], skipped_files = [], dir = d\<rparr>)"
      using r by (simp add: scan_directory_Some)
    ultimately show ?thesis
      by (simp add: item_key_Some)
  qed
  from 1 2 3 4 5 show ?thesis by blast
qed

theorem C4_catalog_sorted_by_id_witness:
  "snd (generate_index example_path_str ''workflows'' ''index.json'' ''2026-01-01T00:00:00''
      (Some example_dir)) = Inr 1 \<and>
   (\<exists>xs. catalog (fst (generate_index example_path_str ''workflows'' ''index.json''
            ''2026-01-01T00:00:00'' (Some example_dir))) =
          Some (build_index ''2026-01-01T00:00:00'' xs) \<and>
        sorted (map (\<lambda>x. the (item_key x)) xs)) \<and>
   map fst example_dir = [''b.json'', ''notes.txt'', ''a.json'', ''broken.json'', ''nometa.json''] \<and>
   catalog_ids (fst (generate_index example_path_str ''workflows'' ''index.json''
      ''2026-01-01T00:00:00'' (Some example_dir))) = [Some ''a'', Some ''b''] \<and>
   catalog_ids (fst (generate_index example_path_str ''workflows'' ''index.json''
      ''2026-01-01T00:00:00'' (Some (rev example_dir)))) = [Some ''a'', Some ''b'']"
proof -
  let ?run = "generate_index example_path_str ''workflows'' ''index.json''
      ''2026-01-01T00:00:00'' (Some example_dir)"
  have s: "snd ?run = Inr 1"
    by code_simp
  then have "?run = (fst ?run, Inr 1)"
    by (metis prod.collapse)
  from C4_catalog_sorted_by_id [OF this]
  have "\<exists>xs. catalog (fst ?run) = Some (build_index ''2026-01-01T00:00:00'' xs) \<and>
        sorted (map (\<lambda>x. the (item_key x)) xs)"
    by blast
  moreover have "map fst example_dir =
      [''b.json'', ''notes.txt'', ''a.json'', ''broken.json'', ''nometa.json'']"
    by (simp add: example_dir_def)
  moreover have "catalog_ids (fst ?run) = [Some ''a'', Some ''b'']"
    by code_simp
  moreover have "catalog_ids (fst (generate_index example_path_str ''workflows'' ''index.json''
      ''2026-01-01T00:00:00'' (Some (rev example_dir)))) = [Some ''a'', Some ''b'']"
    by code_simp
  ultimately show ?thesis using s by blast
qed

subsection \<open>Two runs\<close>














end
